theory Spec2Isabelle
  imports Main "HOL-Library.Product_Lexorder" "HOL-Library.AList" "HOL-Library.Multiset"
begin

section \<open>The heatmap script: presence matrix of articles by research question\<close>

text \<open>
  The development embeds \<^verbatim>\<open>src/figures/heatmap-articles-research-question/main.py\<close>,
  lines 8 to 37: discovery, parsing and aggregation, and the construction of the presence
  matrix. Rendering (lines 39 to 65) calls the plotting libraries only and is not embedded.

  Python strings are HOL strings. The embedding covers ASCII text: on code points below 128
  the functions \<open>isspace\<close>, \<open>upper\<close> and \<open>py_int\<close> below are Python's; a character from 128 up is
  treated as a caseless character that is neither white space nor a digit.
\<close>

subsection \<open>Errors\<close>

text \<open>
  \<open>ValueError\<close> is what \<^verbatim>\<open>int(...)\<close> raises on text that is no integer literal, \<open>IndexError\<close>
  what \<^verbatim>\<open>xs[1]\<close> raises on a list shorter than two. \<open>Enlarge\<close> is no Python exception: it
  marks the place where \<^verbatim>\<open>df.at[r, c] = v\<close> with a label that the frame does not have would
  make pandas grow the frame. The embedding stops there; \<open>main_never_enlarges\<close> shows that the
  script never gets there.
\<close>

datatype error = ValueError | IndexError | Enlarge

subsection \<open>String functions of Python\<close>

definition isspace :: "char \<Rightarrow> bool" where
  \<comment> \<open>\<^verbatim>\<open>str.isspace\<close> on one ASCII character: TAB, LF, VT, FF, CR, FS, GS, RS, US, space\<close>
  "isspace c \<longleftrightarrow> c \<in> set [CHR 0x09, CHR 0x0A, CHR 0x0B, CHR 0x0C, CHR 0x0D,
                            CHR 0x1C, CHR 0x1D, CHR 0x1E, CHR 0x1F, CHR 0x20]"

definition strip :: "string \<Rightarrow> string" where
  \<comment> \<open>\<^verbatim>\<open>s.strip()\<close>\<close>
  "strip s = rev (dropWhile isspace (rev (dropWhile isspace s)))"

definition upper_char :: "char \<Rightarrow> char" where
  "upper_char c = (let n = (of_char c :: nat) in if 97 \<le> n \<and> n \<le> 122 then char_of (n - 32) else c)"

definition upper :: "string \<Rightarrow> string" where
  \<comment> \<open>\<^verbatim>\<open>s.upper()\<close>\<close>
  "upper s = map upper_char s"

definition split_dot0 :: "string \<Rightarrow> string" where
  \<comment> \<open>\<^verbatim>\<open>s.split('.')[0]\<close>: the text before the first dot, all of \<open>s\<close> when it has none\<close>
  "split_dot0 s = takeWhile (\<lambda>c. c \<noteq> CHR ''.'') s"

fun cons_first :: "char \<Rightarrow> string list \<Rightarrow> string list" where
  "cons_first c [] = [[c]]"
| "cons_first c (p # ps) = (c # p) # ps"

fun split_RQ :: "string \<Rightarrow> string list" where
  \<comment> \<open>\<^verbatim>\<open>s.split('RQ')\<close>: the separator is searched from the left, matches do not overlap\<close>
  "split_RQ (c # d # cs) =
     (if c = CHR ''R'' \<and> d = CHR ''Q'' then [] # split_RQ cs
      else cons_first c (split_RQ (d # cs)))"
| "split_RQ [c] = [[c]]"
| "split_RQ [] = [[]]"

definition item1 :: "'a list \<Rightarrow> error + 'a" where
  \<comment> \<open>\<^verbatim>\<open>xs[1]\<close>\<close>
  "item1 xs = (if length xs < 2 then Inl IndexError else Inr (xs ! 1))"

definition last4 :: "string \<Rightarrow> string" where
  \<comment> \<open>\<^verbatim>\<open>s[-4:]\<close>: the last four characters, all of \<open>s\<close> when it is shorter\<close>
  "last4 s = drop (length s - 4) s"

subsection \<open>Integer literals: \<^verbatim>\<open>int(s)\<close>\<close>

definition int_space :: "char \<Rightarrow> bool" where
  \<comment> \<open>the white space that \<^verbatim>\<open>int\<close> skips around an ASCII literal: TAB, LF, VT, FF, CR, space\<close>
  "int_space c \<longleftrightarrow> c \<in> set [CHR 0x09, CHR 0x0A, CHR 0x0B, CHR 0x0C, CHR 0x0D, CHR 0x20]"

definition is_digit :: "char \<Rightarrow> bool" where
  "is_digit c \<longleftrightarrow> 48 \<le> (of_char c :: nat) \<and> (of_char c :: nat) \<le> 57"

definition digit_val :: "char \<Rightarrow> int" where
  "digit_val c = int (of_char c) - 48"

fun parse_digits :: "bool \<Rightarrow> int \<Rightarrow> string \<Rightarrow> int option" where
  \<comment> \<open>digits with single underscores between them; the flag says that the last character
      read was a digit, so that an underscore or the end may follow\<close>
  "parse_digits prev acc [] = (if prev then Some acc else None)"
| "parse_digits prev acc (c # cs) =
     (if is_digit c then parse_digits True (acc * 10 + digit_val c) cs
      else if c = CHR ''_'' \<and> prev then parse_digits False acc cs
      else None)"

definition py_int :: "string \<Rightarrow> error + int" where
  "py_int s =
     (let t = rev (dropWhile int_space (rev (dropWhile int_space s)));
          (sign, ds) = (case t of
                          c # r \<Rightarrow> if c = CHR ''-'' then (- 1, r)
                                   else if c = CHR ''+'' then (1, r) else (1, t)
                        | [] \<Rightarrow> (1, t))
      in case parse_digits False 0 ds of
           None \<Rightarrow> Inl ValueError
         | Some n \<Rightarrow> Inr (sign * n))"

subsection \<open>\<^verbatim>\<open>sorted(xs, key=...)\<close>\<close>

fun map_err :: "('a \<Rightarrow> error + 'b) \<Rightarrow> 'a list \<Rightarrow> error + 'b list" where
  "map_err f [] = Inr []"
| "map_err f (x # xs) =
     (case f x of
        Inl e \<Rightarrow> Inl e
      | Inr y \<Rightarrow> (case map_err f xs of Inl e \<Rightarrow> Inl e | Inr ys \<Rightarrow> Inr (y # ys)))"

definition sorted_py :: "('a \<Rightarrow> error + 'k::linorder) \<Rightarrow> 'a list \<Rightarrow> error + 'a list" where
  \<comment> \<open>the key of every element is computed first, from left to right, and the first failure
      is raised; the elements are then sorted by key, stably\<close>
  "sorted_py key xs =
     (case map_err key xs of
        Inl e \<Rightarrow> Inl e
      | Inr ks \<Rightarrow> Inr (map snd (sort_key fst (zip ks xs))))"

subsection \<open>Files, sets and dictionaries\<close>

text \<open>
  Iterating over a text file yields its lines, each with its terminator; \<^verbatim>\<open>open\<close> in text
  mode translates the terminators CR LF and CR to LF.
\<close>

fun file_lines :: "string \<Rightarrow> string list" where
  "file_lines [] = []"
| "file_lines [c] = (if c = CHR 0x0A \<or> c = CHR 0x0D then [[CHR 0x0A]] else [[c]])"
| "file_lines (c # d # ds) =
     (if c = CHR 0x0A then [CHR 0x0A] # file_lines (d # ds)
      else if c = CHR 0x0D then
        (if d = CHR 0x0A then [CHR 0x0A] # file_lines ds else [CHR 0x0A] # file_lines (d # ds))
      else cons_first c (file_lines (d # ds)))"

text \<open>
  The order in which Python iterates over a set of strings is not specified (it follows the
  hashes, which change from run to run). The embedding takes it as a parameter: \<open>rank xs\<close>
  ranks the elements of the set built from \<open>xs\<close>, and the set is iterated by ascending rank.
  Every order of every set is the order of some \<open>rank\<close>, and every theorem below holds for
  all of them. A set is held as the list of its elements in iteration order.
\<close>

type_synonym rank = "string list \<Rightarrow> string \<Rightarrow> nat"

definition py_set :: "rank \<Rightarrow> string list \<Rightarrow> string list" where
  "py_set rank xs = sort_key (rank (remdups xs)) (remdups xs)"

text \<open>
  A dictionary is an association list in insertion order: \<^verbatim>\<open>d[k] = v\<close> is
  \<^const>\<open>AList.update\<close>, which replaces the value of a key in place and appends a new key at
  the end; \<^verbatim>\<open>d.get(k, 0)\<close> reads through \<^const>\<open>map_of\<close>.
\<close>

type_synonym arquivos_dict = "(string \<times> string list) list"
type_synonym amostra_dict = "(string \<times> int) list"

definition get0 :: "amostra_dict \<Rightarrow> string \<Rightarrow> int" where
  \<comment> \<open>\<^verbatim>\<open>d.get(k, 0)\<close>\<close>
  "get0 d k = (case map_of d k of None \<Rightarrow> 0 | Some v \<Rightarrow> v)"

subsection \<open>Lines 17 to 23: reading the files\<close>

definition file_key :: "string \<Rightarrow> string" where
  \<comment> \<open>line 20: \<^verbatim>\<open>key = arquivo.split('.')[0].upper()\<close>\<close>
  "file_key arquivo = upper (split_dot0 arquivo)"

definition referencias_of :: "rank \<Rightarrow> string \<Rightarrow> string list" where
  \<comment> \<open>line 19: \<^verbatim>\<open>{linha.strip() for linha in f if linha.strip()}\<close>\<close>
  "referencias_of rank content =
     py_set rank (map strip (filter (\<lambda>linha. strip linha \<noteq> []) (file_lines content)))"

definition count_referencia :: "amostra_dict \<Rightarrow> string \<Rightarrow> amostra_dict" where
  \<comment> \<open>line 23\<close>
  "count_referencia amostra referencia = AList.update referencia (get0 amostra referencia + 1) amostra"

definition read_file ::
  "rank \<Rightarrow> arquivos_dict \<times> amostra_dict \<Rightarrow> string \<times> string \<Rightarrow> arquivos_dict \<times> amostra_dict" where
  \<comment> \<open>the body of the loop of line 17, on a file given by its name and its contents\<close>
  "read_file rank st file =
     (let referencias = referencias_of rank (snd file);
          key = file_key (fst file)
      in (AList.update key referencias (fst st), foldl count_referencia (snd st) referencias))"

definition read_files :: "rank \<Rightarrow> (string \<times> string) list \<Rightarrow> arquivos_dict \<times> amostra_dict" where
  \<comment> \<open>lines 11 to 23; \<open>arquivos\<close> lists the files in the order of discovery\<close>
  "read_files rank arquivos = foldl (read_file rank) ([], []) arquivos"

subsection \<open>Lines 28 to 33: the order of the rows and of the columns\<close>

definition row_key :: "string \<times> int \<Rightarrow> error + int \<times> int" where
  \<comment> \<open>line 29: \<^verbatim>\<open>lambda x: (x[1], int(x[0][-4:]))\<close>\<close>
  "row_key x = (case py_int (last4 (fst x)) of Inl e \<Rightarrow> Inl e | Inr n \<Rightarrow> Inr (snd x, n))"

definition row_order :: "amostra_dict \<Rightarrow> error + string list" where
  \<comment> \<open>lines 28 to 30\<close>
  "row_order amostra =
     (case sorted_py row_key amostra of Inl e \<Rightarrow> Inl e | Inr xs \<Rightarrow> Inr (map fst xs))"

definition column_key :: "string \<Rightarrow> error + int" where
  \<comment> \<open>line 33: \<^verbatim>\<open>lambda x: int(x.split('RQ')[1])\<close>\<close>
  "column_key x = (case item1 (split_RQ x) of Inl e \<Rightarrow> Inl e | Inr s \<Rightarrow> py_int s)"

definition column_order :: "arquivos_dict \<Rightarrow> error + string list" where
  "column_order por_arquivo = sorted_py column_key (map fst por_arquivo)"

subsection \<open>Lines 33 to 37: the data frame\<close>

record dataframe =
  index :: "string list"
  columns :: "string list"
  vals :: "int list list"

definition DataFrame0 :: "string list \<Rightarrow> string list \<Rightarrow> dataframe" where
  \<comment> \<open>\<^verbatim>\<open>pd.DataFrame(0, index=..., columns=...)\<close>\<close>
  "DataFrame0 idx cols =
     \<lparr>index = idx, columns = cols, vals = replicate (length idx) (replicate (length cols) 0)\<rparr>"

fun get_loc :: "string list \<Rightarrow> string \<Rightarrow> nat option" where
  \<comment> \<open>the position of a label\<close>
  "get_loc [] l = None"
| "get_loc (x # xs) l = (if x = l then Some 0 else map_option Suc (get_loc xs l))"

definition at_set :: "dataframe \<Rightarrow> string \<Rightarrow> string \<Rightarrow> int \<Rightarrow> error + dataframe" where
  \<comment> \<open>\<^verbatim>\<open>df.at[r, c] = v\<close>\<close>
  "at_set df r c v =
     (case get_loc (index df) r of
        None \<Rightarrow> Inl Enlarge
      | Some i \<Rightarrow>
          (case get_loc (columns df) c of
             None \<Rightarrow> Inl Enlarge
           | Some j \<Rightarrow> Inr (df\<lparr>vals := (vals df)[i := ((vals df) ! i)[j := v]]\<rparr>)))"

definition at_get :: "dataframe \<Rightarrow> string \<Rightarrow> string \<Rightarrow> int option" where
  \<comment> \<open>\<^verbatim>\<open>df.at[r, c]\<close>, \<open>None\<close> for a label that the frame does not have\<close>
  "at_get df r c =
     (case get_loc (index df) r of
        None \<Rightarrow> None
      | Some i \<Rightarrow>
          (case get_loc (columns df) c of
             None \<Rightarrow> None
           | Some j \<Rightarrow> Some (vals df ! i ! j)))"

fun fold_err :: "('s \<Rightarrow> 'a \<Rightarrow> error + 's) \<Rightarrow> 's \<Rightarrow> 'a list \<Rightarrow> error + 's" where
  \<comment> \<open>a loop whose body may raise\<close>
  "fold_err f s [] = Inr s"
| "fold_err f s (x # xs) = (case f s x of Inl e \<Rightarrow> Inl e | Inr s' \<Rightarrow> fold_err f s' xs)"

definition fill_file :: "dataframe \<Rightarrow> string \<times> string list \<Rightarrow> error + dataframe" where
  \<comment> \<open>lines 36 and 37\<close>
  "fill_file df item = fold_err (\<lambda>df ref. at_set df ref (fst item) 1) df (snd item)"

definition fill :: "dataframe \<Rightarrow> arquivos_dict \<Rightarrow> error + dataframe" where
  \<comment> \<open>lines 35 to 37\<close>
  "fill df por_arquivo = fold_err fill_file df por_arquivo"

definition main :: "rank \<Rightarrow> (string \<times> string) list \<Rightarrow> error + dataframe" where
  \<comment> \<open>lines 8 to 37, on the files that \<^verbatim>\<open>glob.glob("rq*.txt")\<close> returned, in its order.
      Line 26 sorts a set of strings, cannot raise, and its result is overwritten by line 28.\<close>
  "main rank arquivos =
     (let st = read_files rank arquivos in
      case row_order (snd st) of
        Inl e \<Rightarrow> Inl e
      | Inr todas_referencias \<Rightarrow>
          (case column_order (fst st) of
             Inl e \<Rightarrow> Inl e
           | Inr cols \<Rightarrow> fill (DataFrame0 todas_referencias cols) (fst st)))"

definition rank0 :: rank where
  \<comment> \<open>one iteration order: all elements rank alike, and a set is iterated as the list holds it\<close>
  "rank0 xs s = 0"

subsection \<open>Notions of the specification\<close>

definition identifiers :: "string \<Rightarrow> string set" where
  \<comment> \<open>the identifiers of a file: its lines, stripped, the blank ones left out\<close>
  "identifiers content = {s \<in> strip ` set (file_lines content). s \<noteq> []}"

definition frequency :: "(string \<times> string) list \<Rightarrow> string \<Rightarrow> int" where
  \<comment> \<open>the number of files that hold an identifier\<close>
  "frequency arquivos r = int (length (filter (\<lambda>f. r \<in> identifiers (snd f)) arquivos))"

definition strip_ext :: "string \<Rightarrow> string" where
  \<comment> \<open>a file name with its extension stripped: without its last dot and what follows it\<close>
  "strip_ext s =
     (if CHR ''.'' \<in> set s then rev (tl (dropWhile (\<lambda>c. c \<noteq> CHR ''.'') (rev s))) else s)"

fun first_seen :: "'a list \<Rightarrow> 'a list" where
  \<comment> \<open>the elements of a list, each once, in the order in which they first occur\<close>
  "first_seen [] = []"
| "first_seen (x # xs) = x # removeAll x (first_seen xs)"

definition wf_df :: "dataframe \<Rightarrow> bool" where
  \<comment> \<open>the values of a frame are one row for each label of the index, one cell for each column\<close>
  "wf_df df \<longleftrightarrow>
     length (vals df) = length (index df) \<and> (\<forall>row\<in>set (vals df). length row = length (columns df))"

definition cells_of :: "arquivos_dict \<Rightarrow> (string \<times> string) list" where
  \<comment> \<open>the cells that lines 35 to 37 set, in the order of the two loops\<close>
  "cells_of por_arquivo = concat (map (\<lambda>item. map (\<lambda>ref. (ref, fst item)) (snd item)) por_arquivo)"

section \<open>Properties\<close>

subsection \<open>Reading the files\<close>

lemma set_py_set: "set (py_set rank xs) = set xs"
  by (simp add: py_set_def)

lemma distinct_py_set: "distinct (py_set rank xs)"
  by (simp add: py_set_def)

lemma set_referencias_of: "set (referencias_of rank content) = identifiers content"
  by (auto simp: referencias_of_def identifiers_def set_py_set)

lemma distinct_referencias_of: "distinct (referencias_of rank content)"
  by (simp add: referencias_of_def distinct_py_set)

lemma get0_count_referencia:
  "get0 (count_referencia d r) k = (if k = r then get0 d r + 1 else get0 d k)"
  by (simp add: get0_def count_referencia_def update_conv')

lemma keys_count_referencia: "fst ` set (count_referencia d r) = insert r (fst ` set d)"
  by (simp add: count_referencia_def dom_update)

lemma distinct_count_referencia:
  "distinct (map fst d) \<Longrightarrow> distinct (map fst (count_referencia d r))"
  by (simp add: count_referencia_def distinct_update)

lemma get0_foldl_count:
  "distinct rs \<Longrightarrow>
   get0 (foldl count_referencia d rs) k = get0 d k + (if k \<in> set rs then 1 else 0)"
  by (induction rs arbitrary: d) (auto simp: get0_count_referencia)

lemma keys_foldl_count: "fst ` set (foldl count_referencia d rs) = fst ` set d \<union> set rs"
  by (induction rs arbitrary: d) (auto simp: keys_count_referencia)

lemma distinct_foldl_count:
  "distinct (map fst d) \<Longrightarrow> distinct (map fst (foldl count_referencia d rs))"
  by (induction rs arbitrary: d) (auto simp: distinct_count_referencia)

lemma read_file_fst:
  "fst (read_file rank st f) =
   AList.update (file_key (fst f)) (referencias_of rank (snd f)) (fst st)"
  by (simp add: read_file_def Let_def)

lemma read_file_snd:
  "snd (read_file rank st f) = foldl count_referencia (snd st) (referencias_of rank (snd f))"
  by (simp add: read_file_def Let_def)

lemma read_loop_amostra_keys:
  "fst ` set (snd (foldl (read_file rank) st fs)) =
   fst ` set (snd st) \<union> (\<Union>f\<in>set fs. identifiers (snd f))"

proof (induction fs arbitrary: st)
  case Nil
  show ?case by simp

next
  case (Cons f fs)
  show ?case
    by (simp add: Cons.IH read_file_fst read_file_snd keys_foldl_count set_referencias_of Un_assoc)

qed

lemma read_loop_get0:
  "get0 (snd (foldl (read_file rank) st fs)) k = get0 (snd st) k + frequency fs k"

proof (induction fs arbitrary: st)
  case Nil
  show ?case by (simp add: frequency_def)

next
  case (Cons f fs)
  show ?case
    by (simp add: Cons.IH read_file_fst read_file_snd get0_foldl_count distinct_referencias_of
        set_referencias_of frequency_def)

qed

lemma read_loop_distinct_amostra:
  "distinct (map fst (snd st)) \<Longrightarrow> distinct (map fst (snd (foldl (read_file rank) st fs)))"
  by (induction fs arbitrary: st) (simp_all add: read_file_fst read_file_snd distinct_foldl_count)

lemma read_loop_distinct_arquivo:
  "distinct (map fst (fst st)) \<Longrightarrow> distinct (map fst (fst (foldl (read_file rank) st fs)))"
  by (induction fs arbitrary: st) (simp_all add: read_file_fst read_file_snd distinct_update)

lemma read_loop_map_of:
  "map_of (fst (foldl (read_file rank) st fs)) =
   map_of (rev (map (\<lambda>f. (file_key (fst f), referencias_of rank (snd f))) fs) @ fst st)"

proof (induction fs arbitrary: st)
  case Nil
  show ?case by simp

next
  case (Cons f fs)
  show ?case
    by (simp add: Cons.IH read_file_fst read_file_snd update_conv' map_add_def fun_eq_iff
        split: option.splits)

qed

lemma read_loop_arquivo_keys:
  "fst ` set (fst (foldl (read_file rank) st fs)) =
   fst ` set (fst st) \<union> file_key ` fst ` set fs"

proof (induction fs arbitrary: st)
  case Nil
  show ?case by simp

next
  case (Cons f fs)
  show ?case
    by (simp add: Cons.IH read_file_fst read_file_snd dom_update Un_assoc insert_commute)

qed

subsection \<open>Sorting with a key that may fail\<close>

lemma py_int_error: "py_int s = Inl e \<Longrightarrow> e = ValueError"
  by (auto simp: py_int_def Let_def split: option.splits list.splits if_splits prod.splits)

lemma row_key_error: "row_key x = Inl e \<Longrightarrow> e = ValueError"
  by (auto simp: row_key_def split: sum.splits dest: py_int_error)

lemma row_key_Inr: "row_key x = Inr k \<longleftrightarrow> (\<exists>n. py_int (last4 (fst x)) = Inr n \<and> k = (snd x, n))"
  by (auto simp: row_key_def split: sum.splits)

lemma map_err_Inr:
  "map_err f xs = Inr ys \<Longrightarrow> (\<forall>x\<in>set xs. \<exists>y. f x = Inr y) \<and> ys = map (\<lambda>x. projr (f x)) xs"
  by (induction xs arbitrary: ys) (auto split: sum.splits)

lemma map_err_ok:
  "\<forall>x\<in>set xs. \<exists>y. f x = Inr y \<Longrightarrow> map_err f xs = Inr (map (\<lambda>x. projr (f x)) xs)"
  by (induction xs) auto

lemma map_err_Inl: "map_err f xs = Inl e \<Longrightarrow> \<exists>x\<in>set xs. f x = Inl e"
  by (induction xs) (auto split: sum.splits)

lemma insort_key_decorated:
  "insort_key fst (k x, x) (map (\<lambda>y. (k y, y)) ys) = map (\<lambda>y. (k y, y)) (insort_key k x ys)"
  by (induction ys) auto

lemma sort_key_decorated:
  "sort_key fst (map (\<lambda>y. (k y, y)) xs) = map (\<lambda>y. (k y, y)) (sort_key k xs)"
  by (induction xs) (simp_all add: insort_key_decorated)

lemma zip_decorate: "zip (map k xs) xs = map (\<lambda>y. (k y, y)) xs"
  by (induction xs) auto

lemma undecorate_sort: "map snd (sort_key fst (zip (map k xs) xs)) = sort_key k xs"
  by (simp add: zip_decorate sort_key_decorated comp_def)

lemma sorted_py_Inr:
  assumes "sorted_py key xs = Inr ys"
  shows "ys = sort_key (\<lambda>x. projr (key x)) xs" and "\<forall>x\<in>set xs. \<exists>k. key x = Inr k"

proof -
  from assms obtain ks where ks: "map_err key xs = Inr ks"
    and ys: "ys = map snd (sort_key fst (zip ks xs))"
    by (auto simp: sorted_py_def split: sum.splits)
  from map_err_Inr [OF ks] have all: "\<forall>x\<in>set xs. \<exists>y. key x = Inr y"
    and "ks = map (\<lambda>x. projr (key x)) xs" by simp_all
  with ys show "ys = sort_key (\<lambda>x. projr (key x)) xs" by (simp add: undecorate_sort)
  from all show "\<forall>x\<in>set xs. \<exists>k. key x = Inr k" .

qed

lemma sorted_py_ok:
  "\<forall>x\<in>set xs. \<exists>k. key x = Inr k \<Longrightarrow> sorted_py key xs = Inr (sort_key (\<lambda>x. projr (key x)) xs)"
  by (simp add: sorted_py_def map_err_ok undecorate_sort)

lemma sorted_py_Inl: "sorted_py key xs = Inl e \<Longrightarrow> \<exists>x\<in>set xs. key x = Inl e"
  by (auto simp: sorted_py_def split: sum.splits dest: map_err_Inl)

lemma sorted_py_fails:
  assumes "x \<in> set xs" and "key x = Inl e"
  shows "\<exists>e'. sorted_py key xs = Inl e'"

proof (cases "sorted_py key xs")
  case (Inl e')
  then show ?thesis by blast

next
  case (Inr ys)
  from sorted_py_Inr(2) [OF Inr] assms show ?thesis by auto

qed

lemma row_order_Inr:
  assumes "row_order amostra = Inr rows"
  shows "rows = map fst (sort_key (\<lambda>x. projr (row_key x)) amostra)"
    and "\<forall>x\<in>set amostra. \<exists>n. py_int (last4 (fst x)) = Inr n"

proof -
  from assms obtain ys where ys: "sorted_py row_key amostra = Inr ys" and rows: "rows = map fst ys"
    by (auto simp: row_order_def split: sum.splits)
  from sorted_py_Inr(1) [OF ys] rows
  show "rows = map fst (sort_key (\<lambda>x. projr (row_key x)) amostra)" by simp
  from sorted_py_Inr(2) [OF ys]
  show "\<forall>x\<in>set amostra. \<exists>n. py_int (last4 (fst x)) = Inr n"
    by (auto simp: row_key_Inr)

qed

lemma row_order_ok:
  assumes "\<forall>r\<in>fst ` set amostra. \<exists>n. py_int (last4 r) = Inr n"
  shows "\<exists>rows. row_order amostra = Inr rows"

proof -
  from assms have "\<forall>x\<in>set amostra. \<exists>k. row_key x = Inr k"
    by (auto simp: row_key_Inr)
  from sorted_py_ok [OF this] show ?thesis by (simp add: row_order_def)

qed

lemma row_order_fails:
  assumes "r \<in> fst ` set amostra" and "py_int (last4 r) = Inl e"
  shows "row_order amostra = Inl ValueError"

proof -
  from assms obtain x where x: "x \<in> set amostra" "row_key x = Inl e"
    by (auto simp: row_key_def)
  from sorted_py_fails [of x amostra row_key e, OF x] obtain e' where e': "sorted_py row_key amostra = Inl e'" by blast
  from sorted_py_Inl [OF e'] have "e' = ValueError" by (auto dest: row_key_error)
  with e' show ?thesis by (simp add: row_order_def)

qed

lemma row_order_set:
  assumes "row_order amostra = Inr rows"
  shows "set rows = fst ` set amostra"
  by (simp add: row_order_Inr(1) [OF assms])

lemma row_order_distinct:
  assumes "row_order amostra = Inr rows" and "distinct (map fst amostra)"
  shows "distinct rows"

proof -
  have "mset (map fst (sort_key (\<lambda>x. projr (row_key x)) amostra)) = mset (map fst amostra)"
    by simp
  then have "distinct (map fst (sort_key (\<lambda>x. projr (row_key x)) amostra))"
    using assms(2) by (metis distinct_count_atmost_1 set_mset_mset)
  with row_order_Inr(1) [OF assms(1)] show ?thesis by simp

qed

subsection \<open>The data frame\<close>

lemma get_loc_None: "get_loc xs l = None \<longleftrightarrow> l \<notin> set xs"
  by (induction xs) auto

lemma get_loc_Some: "get_loc xs l = Some i \<Longrightarrow> i < length xs \<and> xs ! i = l"
  by (induction xs arbitrary: i) (auto split: if_splits)

lemma get_loc_mem: "l \<in> set xs \<Longrightarrow> \<exists>i. get_loc xs l = Some i"
  using get_loc_None [of xs l] by (cases "get_loc xs l") auto

lemma at_set_Inr:
  assumes "at_set df r c v = Inr df'"
  shows "index df' = index df" and "columns df' = columns df"
    and "r \<in> set (index df)" and "c \<in> set (columns df)"
  using assms get_loc_None [of "index df" r] get_loc_None [of "columns df" c]
  by (auto simp: at_set_def split: option.splits)

lemma at_set_ok:
  assumes "r \<in> set (index df)" and "c \<in> set (columns df)"
  shows "\<exists>df'. at_set df r c v = Inr df'"
  using get_loc_mem [OF assms(1)] get_loc_mem [OF assms(2)]
  by (auto simp: at_set_def)

lemma at_set_wf:
  assumes "wf_df df" and "at_set df r c v = Inr df'"
  shows "wf_df df'"

proof -
  from assms(2) obtain i j where i: "get_loc (index df) r = Some i"
    and j: "get_loc (columns df) c = Some j"
    and df': "df' = df\<lparr>vals := (vals df)[i := ((vals df) ! i)[j := v]]\<rparr>"
    by (auto simp: at_set_def split: option.splits)
  from get_loc_Some [OF i] assms(1) have "i < length (vals df)" by (simp add: wf_df_def)
  with assms(1) have "length (vals df ! i) = length (columns df)" by (simp add: wf_df_def)
  with assms(1) df' show ?thesis
    by (auto simp: wf_df_def dest!: set_update_subset_insert [THEN subsetD])

qed

lemma at_get_at_set:
  assumes "wf_df df" and "at_set df r c v = Inr df'"
  shows "at_get df' r' c' = (if r' = r \<and> c' = c then Some v else at_get df r' c')"

proof -
  from assms(2) obtain i j where i: "get_loc (index df) r = Some i"
    and j: "get_loc (columns df) c = Some j"
    and df': "df' = df\<lparr>vals := (vals df)[i := ((vals df) ! i)[j := v]]\<rparr>"
    by (auto simp: at_set_def split: option.splits)
  from get_loc_Some [OF i] assms(1) have il: "i < length (vals df)" and ir: "index df ! i = r"
    by (simp_all add: wf_df_def)
  from il assms(1) have "length (vals df ! i) = length (columns df)" by (simp add: wf_df_def)
  with get_loc_Some [OF j] have jl: "j < length (vals df ! i)" and jc: "columns df ! j = c"
    by simp_all
  show ?thesis
  proof (cases "get_loc (index df) r'")
    case None
    then show ?thesis using i by (auto simp: at_get_def df')
  next
    case (Some i')
    note i' = this
    show ?thesis
    proof (cases "get_loc (columns df) c'")
      case None
      then show ?thesis using j i' by (auto simp: at_get_def df')
    next
      case (Some j')
      from get_loc_Some [OF i'] have r': "index df ! i' = r'" by simp
      from get_loc_Some [OF Some] have c': "columns df ! j' = c'" by simp
      have "i' = i \<Longrightarrow> r' = r" using r' ir by simp
      moreover have "r' = r \<Longrightarrow> i' = i" using i i' by simp
      ultimately have eq_i: "i' = i \<longleftrightarrow> r' = r" by blast
      have "j' = j \<Longrightarrow> c' = c" using c' jc by simp
      moreover have "c' = c \<Longrightarrow> j' = j" using j Some by simp
      ultimately have eq_j: "j' = j \<longleftrightarrow> c' = c" by blast
      have "at_get df' r' c' = Some ((vals df)[i := ((vals df) ! i)[j := v]] ! i' ! j')"
        using i' Some by (simp add: at_get_def df')
      also have "\<dots> = (if i' = i \<and> j' = j then Some v else Some (vals df ! i' ! j'))"
        using il jl by (simp add: nth_list_update)
      also have "\<dots> = (if r' = r \<and> c' = c then Some v else at_get df r' c')"
        using i' Some by (simp add: at_get_def eq_i eq_j)
      finally show ?thesis .
    qed
  qed

qed

lemma at_get_DataFrame0:
  "at_get (DataFrame0 idx cols) r c = (if r \<in> set idx \<and> c \<in> set cols then Some 0 else None)"

proof (cases "get_loc idx r")
  case None
  then show ?thesis using get_loc_None [of idx r] by (simp add: at_get_def DataFrame0_def)

next
  case (Some i)
  note i = this
  show ?thesis
  proof (cases "get_loc cols c")
    case None
    then show ?thesis using get_loc_None [of cols c] i by (simp add: at_get_def DataFrame0_def)
  next
    case (Some j)
    from get_loc_Some [OF i] get_loc_Some [OF Some] i Some show ?thesis
      by (auto simp: at_get_def DataFrame0_def)
  qed

qed

lemma wf_DataFrame0: "wf_df (DataFrame0 idx cols)"
  by (simp add: wf_df_def DataFrame0_def)

lemma fold_err_append:
  "fold_err f s (xs @ ys) =
     (case fold_err f s xs of Inl e \<Rightarrow> Inl e | Inr s' \<Rightarrow> fold_err f s' ys)"
  by (induction xs arbitrary: s) (auto split: sum.splits)

lemma fold_err_map: "fold_err f s (map g xs) = fold_err (\<lambda>s x. f s (g x)) s xs"
  by (induction xs arbitrary: s) (auto split: sum.splits)

lemma fill_file_flat:
  "fill_file df item =
   fold_err (\<lambda>df p. at_set df (fst p) (snd p) 1) df (map (\<lambda>ref. (ref, fst item)) (snd item))"
  by (simp add: fill_file_def fold_err_map)

lemma fill_flat:
  "fill df por_arquivo = fold_err (\<lambda>df p. at_set df (fst p) (snd p) 1) df (cells_of por_arquivo)"

proof -
  have "fold_err fill_file df d =
        fold_err (\<lambda>df p. at_set df (fst p) (snd p) 1) df (cells_of d)" for d
  proof (induction d arbitrary: df)
    case Nil
    show ?case by (simp add: cells_of_def)
  next
    case (Cons item d)
    let ?F = "\<lambda>df p. at_set df (fst p) (snd p) 1"
    have step: "cells_of (item # d) = map (\<lambda>ref. (ref, fst item)) (snd item) @ cells_of d"
      by (simp add: cells_of_def)
    have "fold_err ?F df (cells_of (item # d)) =
          (case fill_file df item of Inl e \<Rightarrow> Inl e | Inr s' \<Rightarrow> fold_err ?F s' (cells_of d))"
      unfolding step fold_err_append fill_file_flat ..
    also have "\<dots> =
          (case fill_file df item of Inl e \<Rightarrow> Inl e | Inr s' \<Rightarrow> fold_err fill_file s' d)"
      by (simp add: Cons.IH split: sum.splits)
    also have "\<dots> = fold_err fill_file df (item # d)" by simp
    finally show ?case by simp
  qed
  then show ?thesis by (simp add: fill_def)

qed

lemma fold_at_set:
  assumes "wf_df df" and "\<forall>p\<in>set ps. fst p \<in> set (index df) \<and> snd p \<in> set (columns df)"
  shows "\<exists>df'. fold_err (\<lambda>df p. at_set df (fst p) (snd p) 1) df ps = Inr df' \<and>
           index df' = index df \<and> columns df' = columns df \<and>
           (\<forall>r c. at_get df' r c = (if (r, c) \<in> set ps then Some 1 else at_get df r c))"
  using assms

proof (induction ps arbitrary: df)
  case Nil
  then show ?case by simp

next
  case (Cons p ps)
  from Cons.prems(2) have "fst p \<in> set (index df)" "snd p \<in> set (columns df)" by simp_all
  from at_set_ok [OF this] obtain df1 where df1: "at_set df (fst p) (snd p) 1 = Inr df1"
    by blast
  note same = at_set_Inr(1,2) [OF df1]
  have wf1: "wf_df df1" by (rule at_set_wf [OF Cons.prems(1) df1])
  have "\<forall>p\<in>set ps. fst p \<in> set (index df1) \<and> snd p \<in> set (columns df1)"
    using Cons.prems(2) same by simp
  from Cons.IH [OF wf1 this] obtain df' where
    df': "fold_err (\<lambda>df p. at_set df (fst p) (snd p) 1) df1 ps = Inr df'"
    "index df' = index df1" "columns df' = columns df1"
    "\<forall>r c. at_get df' r c = (if (r, c) \<in> set ps then Some 1 else at_get df1 r c)"
    by blast
  have "at_get df' r c = (if (r, c) \<in> set (p # ps) then Some 1 else at_get df r c)" for r c
    using df'(4) at_get_at_set [OF Cons.prems(1) df1, of r c] by (cases p) auto
  with df' same df1 show ?case by simp

qed

lemma cells_of_iff: "(r, c) \<in> set (cells_of d) \<longleftrightarrow> (\<exists>rs. (c, rs) \<in> set d \<and> r \<in> set rs)"
  by (auto simp: cells_of_def) force

subsection \<open>The whole script\<close>

lemma read_files_distinct:
  "distinct (map fst (fst (read_files rank fs)))" "distinct (map fst (snd (read_files rank fs)))"
  by (simp_all add: read_files_def read_loop_distinct_arquivo read_loop_distinct_amostra)

lemma read_files_map_of:
  "map_of (fst (read_files rank fs)) =
   map_of (rev (map (\<lambda>f. (file_key (fst f), referencias_of rank (snd f))) fs))"
  by (simp add: read_files_def read_loop_map_of)

lemma read_files_stored:
  assumes "(k, rs) \<in> set (fst (read_files rank fs))"
  shows "\<exists>f\<in>set fs. k = file_key (fst f) \<and> rs = referencias_of rank (snd f)"
proof -
  from assms read_files_distinct(1) have "map_of (fst (read_files rank fs)) k = Some rs"
    by (rule map_of_is_SomeI [rotated])
  then have "(k, rs) \<in> set (rev (map (\<lambda>f. (file_key (fst f), referencias_of rank (snd f))) fs))"
    unfolding read_files_map_of by (rule map_of_SomeD)
  then show ?thesis by auto
qed

lemma read_files_amostra_keys:
  "fst ` set (snd (read_files rank fs)) = (\<Union>f\<in>set fs. identifiers (snd f))"
  by (simp add: read_files_def read_loop_amostra_keys)

lemma read_files_arquivo_keys:
  "fst ` set (fst (read_files rank fs)) = file_key ` fst ` set fs"
  by (simp add: read_files_def read_loop_arquivo_keys)

lemma read_files_get0: "get0 (snd (read_files rank fs)) r = frequency fs r"
  by (simp add: read_files_def read_loop_get0) (simp add: get0_def)

lemma read_files_count:
  assumes "(r, n) \<in> set (snd (read_files rank fs))"
  shows "n = frequency fs r"
proof -
  from assms read_files_distinct(2) have "map_of (snd (read_files rank fs)) r = Some n"
    by (rule map_of_is_SomeI [rotated])
  then have "get0 (snd (read_files rank fs)) r = n" by (simp add: get0_def)
  then show ?thesis by (simp add: read_files_get0)
qed

lemma column_key_error: "column_key x = Inl e \<Longrightarrow> e = ValueError \<or> e = IndexError"
  by (auto simp: column_key_def item1_def split: sum.splits if_splits dest: py_int_error)

lemma column_order_Inr:
  assumes "column_order d = Inr cols"
  shows "cols = sort_key (\<lambda>x. projr (column_key x)) (map fst d)"
    and "\<forall>c\<in>fst ` set d. \<exists>n. column_key c = Inr n"
  using sorted_py_Inr [OF assms [unfolded column_order_def]] by simp_all

lemma column_order_ok:
  assumes "\<forall>c\<in>fst ` set d. \<exists>n. column_key c = Inr n"
  shows "column_order d = Inr (sort_key (\<lambda>x. projr (column_key x)) (map fst d))"
  unfolding column_order_def using assms by (intro sorted_py_ok) simp

lemma column_order_error:
  assumes "column_order d = Inl e"
  shows "e = ValueError \<or> e = IndexError"
  using sorted_py_Inl [OF assms [unfolded column_order_def]] by (auto dest: column_key_error)

lemma row_order_error:
  assumes "row_order d = Inl e"
  shows "e = ValueError"
proof -
  from assms obtain e' where "sorted_py row_key d = Inl e'" and "e = e'"
    by (auto simp: row_order_def split: sum.splits)
  with sorted_py_Inl [of row_key d e'] show ?thesis by (auto dest: row_key_error)
qed

lemma fill_main:
  assumes rows: "row_order (snd (read_files rank fs)) = Inr rows"
    and cols: "column_order (fst (read_files rank fs)) = Inr cols"
  shows "\<exists>df. fill (DataFrame0 rows cols) (fst (read_files rank fs)) = Inr df \<and>
           index df = rows \<and> columns df = cols \<and>
           (\<forall>r c. at_get df r c =
              (if r \<in> set rows \<and> c \<in> set cols
               then Some (if (r, c) \<in> set (cells_of (fst (read_files rank fs))) then 1 else 0)
               else None))"
proof -
  let ?d = "fst (read_files rank fs)"
  have set_rows: "set rows = (\<Union>f\<in>set fs. identifiers (snd f))"
    using row_order_set [OF rows] by (simp add: read_files_amostra_keys)
  have set_cols: "set cols = fst ` set ?d"
    using column_order_Inr(1) [OF cols] by simp
  have inside: "\<forall>p\<in>set (cells_of ?d). fst p \<in> set rows \<and> snd p \<in> set cols"
  proof
    fix p assume "p \<in> set (cells_of ?d)"
    then obtain rs where rs: "(snd p, rs) \<in> set ?d" "fst p \<in> set rs"
      using cells_of_iff [of "fst p" "snd p" ?d] by auto
    from read_files_stored [OF rs(1)] obtain f where
      f: "f \<in> set fs" "rs = referencias_of rank (snd f)" by blast
    from f(2) rs(2) have "fst p \<in> identifiers (snd f)" by (simp add: set_referencias_of)
    with f(1) have "fst p \<in> set rows" unfolding set_rows by blast
    moreover from rs(1) have "snd p \<in> set cols" by (force simp: set_cols)
    ultimately show "fst p \<in> set rows \<and> snd p \<in> set cols" ..
  qed
  have "\<forall>p\<in>set (cells_of ?d).
          fst p \<in> set (index (DataFrame0 rows cols)) \<and> snd p \<in> set (columns (DataFrame0 rows cols))"
    using inside by (simp add: DataFrame0_def)
  from fold_at_set [OF wf_DataFrame0 this] obtain df where
    df: "fold_err (\<lambda>df p. at_set df (fst p) (snd p) 1) (DataFrame0 rows cols) (cells_of ?d) = Inr df"
    "index df = index (DataFrame0 rows cols)" "columns df = columns (DataFrame0 rows cols)"
    "\<forall>r c. at_get df r c =
       (if (r, c) \<in> set (cells_of ?d) then Some 1 else at_get (DataFrame0 rows cols) r c)"
    by blast
  have "at_get df r c =
      (if r \<in> set rows \<and> c \<in> set cols
       then Some (if (r, c) \<in> set (cells_of ?d) then 1 else 0) else None)" for r c
    using df(4) inside by (auto simp: at_get_DataFrame0)
  with df(1-3) show ?thesis by (simp add: fill_flat DataFrame0_def)
qed

lemma main_Inr:
  assumes "main rank fs = Inr df"
  shows "row_order (snd (read_files rank fs)) = Inr (index df)"
    and "column_order (fst (read_files rank fs)) = Inr (columns df)"
    and "\<forall>r c. at_get df r c =
              (if r \<in> set (index df) \<and> c \<in> set (columns df)
               then Some (if (r, c) \<in> set (cells_of (fst (read_files rank fs))) then 1 else 0)
               else None)"
proof -
  from assms obtain rows cols where rows: "row_order (snd (read_files rank fs)) = Inr rows"
    and cols: "column_order (fst (read_files rank fs)) = Inr cols"
    and df: "fill (DataFrame0 rows cols) (fst (read_files rank fs)) = Inr df"
    by (auto simp: main_def Let_def split: sum.splits)
  from fill_main [OF rows cols] df have "index df = rows" "columns df = cols"
    and cells: "\<forall>r c. at_get df r c =
              (if r \<in> set rows \<and> c \<in> set cols
               then Some (if (r, c) \<in> set (cells_of (fst (read_files rank fs))) then 1 else 0)
               else None)"
    by auto
  with rows cols show "row_order (snd (read_files rank fs)) = Inr (index df)"
    and "column_order (fst (read_files rank fs)) = Inr (columns df)"
    and "\<forall>r c. at_get df r c =
              (if r \<in> set (index df) \<and> c \<in> set (columns df)
               then Some (if (r, c) \<in> set (cells_of (fst (read_files rank fs))) then 1 else 0)
               else None)"
    by simp_all
qed

lemma main_ok:
  assumes "row_order (snd (read_files rank fs)) = Inr rows"
    and "column_order (fst (read_files rank fs)) = Inr cols"
  shows "\<exists>df. main rank fs = Inr df \<and> index df = rows \<and> columns df = cols"
  using fill_main [OF assms] assms by (auto simp: main_def Let_def)

lemma main_error:
  assumes "main rank fs = Inl e"
  shows "row_order (snd (read_files rank fs)) = Inl e \<or>
         (\<exists>rows. row_order (snd (read_files rank fs)) = Inr rows) \<and>
         column_order (fst (read_files rank fs)) = Inl e"
proof (cases "row_order (snd (read_files rank fs))")
  case (Inl e')
  with assms show ?thesis by (simp add: main_def Let_def)
next
  case (Inr rows)
  note rows = this
  show ?thesis
  proof (cases "column_order (fst (read_files rank fs))")
    case (Inl e')
    with assms rows show ?thesis by (simp add: main_def Let_def)
  next
    case (Inr cols)
    from main_ok [OF rows Inr] assms show ?thesis by auto
  qed
qed

lemma main_never_enlarges: "main rank fs \<noteq> Inl Enlarge"
proof
  assume "main rank fs = Inl Enlarge"
  from main_error [OF this] show False
    by (auto dest: row_order_error column_order_error)
qed

lemma strip_eq_Nil: "strip l = [] \<longleftrightarrow> (\<forall>c\<in>set l. isspace c)"
proof
  assume "strip l = []"
  then have all: "\<forall>c\<in>set (dropWhile isspace l). isspace c"
    by (simp add: strip_def dropWhile_eq_Nil_conv)
  have "dropWhile isspace l = []"
  proof (rule ccontr)
    assume ne: "dropWhile isspace l \<noteq> []"
    then have "\<not> isspace (hd (dropWhile isspace l))" by (rule hd_dropWhile)
    moreover from ne have "hd (dropWhile isspace l) \<in> set (dropWhile isspace l)" by simp
    ultimately show False using all by blast
  qed
  then show "\<forall>c\<in>set l. isspace c" by (simp add: dropWhile_eq_Nil_conv)
next
  assume "\<forall>c\<in>set l. isspace c"
  then show "strip l = []" by (auto simp: strip_def dest: set_dropWhileD)
qed

lemma strip_not_blank:
  assumes "strip l \<noteq> []"
  shows "\<exists>c\<in>set (strip l). \<not> isspace c"
proof -
  let ?u = "dropWhile isspace (rev (dropWhile isspace l))"
  from assms have ne: "?u \<noteq> []" by (simp add: strip_def)
  then have "\<not> isspace (hd ?u)" by (rule hd_dropWhile)
  moreover from ne have "hd ?u \<in> set (strip l)" by (simp add: strip_def)
  ultimately show ?thesis by blast
qed

lemma main_fails_in_row_order:
  assumes "f \<in> set arquivos" and "r \<in> identifiers (snd f)" and "py_int (last4 r) = Inl e"
  shows "row_order (snd (read_files rank arquivos)) = Inl ValueError"
    and "main rank arquivos = Inl ValueError"
proof -
  from assms(1,2) have "r \<in> fst ` set (snd (read_files rank arquivos))"
    unfolding read_files_amostra_keys by blast
  from row_order_fails [OF this assms(3)]
  show "row_order (snd (read_files rank arquivos)) = Inl ValueError" .
  then show "main rank arquivos = Inl ValueError" by (simp add: main_def Let_def)
qed

lemma read_files_cong_rank:
  assumes "\<forall>f\<in>set fs. referencias_of rank (snd f) = referencias_of rank' (snd f)"
  shows "read_files rank fs = read_files rank' fs"
  unfolding read_files_def
  by (rule foldl_cong) (use assms in \<open>simp_all add: read_file_def\<close>)

lemma main_cong_rank:
  assumes "\<forall>f\<in>set fs. referencias_of rank (snd f) = referencias_of rank' (snd f)"
  shows "main rank fs = main rank' fs"
  by (simp add: main_def read_files_cong_rank [OF assms])

lemma py_set_two:
  assumes "a \<noteq> b"
  shows "py_set rank [a, b] = (if rank [a, b] a \<le> rank [a, b] b then [a, b] else [b, a])"
  using assms by (simp add: py_set_def)

lemma py_set_one: "py_set rank [a] = [a]"
  by (simp add: py_set_def)

lemma main_succeeds_iff:
  "(\<exists>df. main rank fs = Inr df) \<longleftrightarrow>
   (\<forall>f\<in>set fs. \<forall>r\<in>identifiers (snd f). \<exists>n. py_int (last4 r) = Inr n) \<and>
   (\<forall>f\<in>set fs. \<exists>n. column_key (file_key (fst f)) = Inr n)"
proof
  assume "\<exists>df. main rank fs = Inr df"
  then obtain df where df: "main rank fs = Inr df" ..
  from row_order_Inr(2) [OF main_Inr(1) [OF df]]
  have "\<forall>r\<in>fst ` set (snd (read_files rank fs)). \<exists>n. py_int (last4 r) = Inr n" by simp
  then have rows: "\<forall>f\<in>set fs. \<forall>r\<in>identifiers (snd f). \<exists>n. py_int (last4 r) = Inr n"
    unfolding read_files_amostra_keys by blast
  from column_order_Inr(2) [OF main_Inr(2) [OF df]]
  have "\<forall>f\<in>set fs. \<exists>n. column_key (file_key (fst f)) = Inr n"
    unfolding read_files_arquivo_keys by blast
  with rows show "(\<forall>f\<in>set fs. \<forall>r\<in>identifiers (snd f). \<exists>n. py_int (last4 r) = Inr n) \<and>
   (\<forall>f\<in>set fs. \<exists>n. column_key (file_key (fst f)) = Inr n)" ..
next
  assume ok: "(\<forall>f\<in>set fs. \<forall>r\<in>identifiers (snd f). \<exists>n. py_int (last4 r) = Inr n) \<and>
   (\<forall>f\<in>set fs. \<exists>n. column_key (file_key (fst f)) = Inr n)"
  then have "\<forall>r\<in>fst ` set (snd (read_files rank fs)). \<exists>n. py_int (last4 r) = Inr n"
    unfolding read_files_amostra_keys by blast
  from row_order_ok [OF this] obtain rows where
    rows: "row_order (snd (read_files rank fs)) = Inr rows" ..
  from ok have "\<forall>c\<in>fst ` set (fst (read_files rank fs)). \<exists>n. column_key c = Inr n"
    unfolding read_files_arquivo_keys by blast
  from main_ok [OF rows column_order_ok [OF this]]
  show "\<exists>df. main rank fs = Inr df" by blast
qed

lemma main_columns:
  assumes "main rank fs = Inr df"
  shows "columns df = sort_key (\<lambda>c. projr (column_key c)) (map fst (fst (read_files rank fs)))"
    and "set (columns df) = file_key ` fst ` set fs"
    and "distinct (columns df)"
    and "\<forall>c\<in>set (columns df). \<exists>n. column_key c = Inr n"
proof -
  note cols = main_Inr(2) [OF assms]
  show eq: "columns df = sort_key (\<lambda>c. projr (column_key c)) (map fst (fst (read_files rank fs)))"
    by (rule column_order_Inr(1) [OF cols])
  then show set: "set (columns df) = file_key ` fst ` set fs"
    by (simp add: read_files_arquivo_keys)
  from eq show "distinct (columns df)" by (simp add: read_files_distinct(1))
  from column_order_Inr(2) [OF cols] set
  show "\<forall>c\<in>set (columns df). \<exists>n. column_key c = Inr n"
    by (simp add: read_files_arquivo_keys)
qed

lemma sort_key_unique:
  assumes "distinct xs" and "distinct ys" and "set xs = set ys" and "inj_on k (set xs)"
  shows "sort_key k xs = sort_key k ys"
proof -
  let ?xs = "sort_key k xs" and ?ys = "sort_key k ys"
  have "sorted (map k ?xs)" "sorted (map k ?ys)" by (rule sorted_sort_key)+
  moreover have "distinct (map k ?xs)" "distinct (map k ?ys)"
    using assms by (simp_all add: distinct_map)
  moreover have "set (map k ?xs) = set (map k ?ys)" using assms(3) by simp
  ultimately have "map k ?xs = map k ?ys" by (intro sorted_distinct_set_unique)
  moreover have "inj_on k (set ?xs \<union> set ?ys)" using assms(3,4) by simp
  ultimately show ?thesis by (simp add: inj_on_map_eq_map)
qed


lemma set_first_seen: "set (first_seen xs) = set xs"
  by (induction xs) auto

lemma read_loop_key_order:
  "map fst (fst (foldl (read_file rank) st fs)) =
   map fst (fst st) @
   filter (\<lambda>k. k \<notin> set (map fst (fst st))) (first_seen (map (\<lambda>f. file_key (fst f)) fs))"
proof (induction fs arbitrary: st)
  case Nil
  show ?case by simp
next
  case (Cons f fs)
  let ?K = "map fst (fst st)" and ?kf = "file_key (fst f)"
  let ?F = "first_seen (map (\<lambda>f. file_key (fst f)) fs)"
  have keys: "map fst (fst (read_file rank st f)) = (if ?kf \<in> set ?K then ?K else ?K @ [?kf])"
    by (simp add: read_file_fst update_keys)
  show ?case
  proof (cases "?kf \<in> set ?K")
    case True
    then have "filter (\<lambda>k. k \<notin> set ?K) (removeAll ?kf ?F) = filter (\<lambda>k. k \<notin> set ?K) ?F"
      by (auto simp: removeAll_filter_not_eq intro: filter_cong)
    with True show ?thesis by (simp add: Cons.IH keys)
  next
    case False
    have "filter (\<lambda>k. k \<notin> set (?K @ [?kf])) ?F = filter (\<lambda>k. k \<notin> set ?K) (removeAll ?kf ?F)"
      by (auto simp: removeAll_filter_not_eq intro: filter_cong)
    with False show ?thesis by (simp add: Cons.IH keys)
  qed
qed

lemma read_files_key_order:
  "map fst (fst (read_files rank fs)) = first_seen (map (\<lambda>f. file_key (fst f)) fs)"
  by (simp add: read_files_def read_loop_key_order)

lemma main_columns_ties:
  assumes "main rank fs = Inr df"
  shows "\<forall>n. filter (\<lambda>c. column_key c = Inr n) (columns df) =
             filter (\<lambda>c. column_key c = Inr n) (first_seen (map (\<lambda>f. file_key (fst f)) fs))"
proof
  fix n
  let ?k = "\<lambda>c. projr (column_key c)"
  let ?F = "first_seen (map (\<lambda>f. file_key (fst f)) fs)"
  note c = main_columns [OF assms]
  have cols: "columns df = sort_key ?k ?F" using c(1) by (simp add: read_files_key_order)
  have same: "set ?F = set (columns df)" unfolding cols by simp
  have eqv: "(column_key x = Inr n) = (?k x = n)" if "x \<in> set (columns df)" for x
    using c(4) that by auto
  have "filter (\<lambda>c. column_key c = Inr n) (columns df) = filter (\<lambda>c. ?k c = n) (columns df)"
    by (rule filter_cong [OF refl]) (rule eqv)
  also have "\<dots> = filter (\<lambda>c. ?k c = n) ?F" unfolding cols by (rule sort_key_stable)
  also have "\<dots> = filter (\<lambda>c. column_key c = Inr n) ?F"
    by (rule filter_cong [OF refl]) (simp add: same eqv)
  finally show "filter (\<lambda>c. column_key c = Inr n) (columns df) =
             filter (\<lambda>c. column_key c = Inr n) ?F" .
qed

section \<open>The claims of the specification\<close>




text \<open>
  Claim C2. The rows of the matrix are pairwise distinct, and they are exactly the identifiers
  of the files read: each identifier of at least one file is a row, once, and nothing else is.
\<close>

theorem rows_are_the_identifiers:
  assumes "main rank arquivos = Inr df"
  shows "distinct (index df) \<and> set (index df) = (\<Union>f\<in>set arquivos. identifiers (snd f))"
proof
  note rows = main_Inr(1) [OF assms]
  show "distinct (index df)" by (rule row_order_distinct [OF rows read_files_distinct(2)])
  show "set (index df) = (\<Union>f\<in>set arquivos. identifiers (snd f))"
    using row_order_set [OF rows] by (simp add: read_files_amostra_keys)
qed

theorem rows_are_the_identifiers_witness:
  "main (\<lambda>_ _. 0) [(''rq1.txt'', ''A0001\<newline>A0002\<newline>''), (''rq2.txt'', ''A0002\<newline>'')] =
     Inr \<lparr>index = [''A0001'', ''A0002''], columns = [''RQ1'', ''RQ2''], vals = [[1, 0], [1, 1]]\<rparr> \<and>
   distinct [''A0001'', ''A0002''] \<and>
   set [''A0001'', ''A0002''] = identifiers ''A0001\<newline>A0002\<newline>'' \<union> identifiers ''A0002\<newline>''"
proof -
  have run: "main (\<lambda>_ _. 0) [(''rq1.txt'', ''A0001\<newline>A0002\<newline>''), (''rq2.txt'', ''A0002\<newline>'')] =
     Inr \<lparr>index = [''A0001'', ''A0002''], columns = [''RQ1'', ''RQ2''], vals = [[1, 0], [1, 1]]\<rparr>"
    by code_simp
  from rows_are_the_identifiers [OF run] run show ?thesis by simp
qed

text \<open>
  Claim C3. Of two adjacent rows, the last four characters of both are integer literals, and
  the pair (number of files that hold the identifier, value of that literal) of the first row is
  at most that of the second in the lexicographic order.
\<close>

theorem rows_ascending:
  assumes "main rank arquivos = Inr df" and "Suc i < length (index df)"
  shows "\<exists>m n. py_int (last4 (index df ! i)) = Inr m \<and>
               py_int (last4 (index df ! Suc i)) = Inr n \<and>
               (frequency arquivos (index df ! i) < frequency arquivos (index df ! Suc i) \<or>
                frequency arquivos (index df ! i) = frequency arquivos (index df ! Suc i) \<and> m \<le> n)"
proof -
  let ?a = "snd (read_files rank arquivos)"
  let ?k = "\<lambda>x. projr (row_key x)"
  let ?ys = "sort_key ?k ?a"
  note rows = main_Inr(1) [OF assms(1)]
  have idx: "index df = map fst ?ys" by (rule row_order_Inr(1) [OF rows])
  with assms(2) have len: "Suc i < length ?ys" by simp
  have key: "\<exists>n. py_int (last4 (fst y)) = Inr n \<and> ?k y = (frequency arquivos (fst y), n)"
    if "y \<in> set ?ys" for y
  proof -
    from that have y: "y \<in> set ?a" by simp
    with row_order_Inr(2) [OF rows] obtain n where n: "py_int (last4 (fst y)) = Inr n" by blast
    from y have "snd y = frequency arquivos (fst y)"
      using read_files_count [of "fst y" "snd y" rank arquivos] by simp
    with n show ?thesis by (simp add: row_key_def)
  qed
  from len have "i < length ?ys" by simp
  then have "?ys ! i \<in> set ?ys" by (rule nth_mem)
  moreover from len have "?ys ! Suc i \<in> set ?ys" by (rule nth_mem)
  ultimately obtain m n where m: "py_int (last4 (fst (?ys ! i))) = Inr m"
      "?k (?ys ! i) = (frequency arquivos (fst (?ys ! i)), m)"
    and n: "py_int (last4 (fst (?ys ! Suc i))) = Inr n"
      "?k (?ys ! Suc i) = (frequency arquivos (fst (?ys ! Suc i)), n)"
    using key by blast
  have "sorted (map ?k ?ys)" by (rule sorted_sort_key)
  with len have "map ?k ?ys ! i \<le> map ?k ?ys ! Suc i"
    by (intro sorted_nth_mono) simp_all
  with len have "?k (?ys ! i) \<le> ?k (?ys ! Suc i)" by simp
  with m(2) n(2) have "frequency arquivos (fst (?ys ! i)) < frequency arquivos (fst (?ys ! Suc i)) \<or>
      frequency arquivos (fst (?ys ! i)) = frequency arquivos (fst (?ys ! Suc i)) \<and> m \<le> n"
    by auto
  moreover from len idx have "index df ! i = fst (?ys ! i)" "index df ! Suc i = fst (?ys ! Suc i)"
    by simp_all
  ultimately show ?thesis using m(1) n(1) by auto
qed

theorem rows_ascending_witness:
  "main (\<lambda>_ _. 0) [(''rq1.txt'', ''A0001\<newline>A0002\<newline>''), (''rq2.txt'', ''A0002\<newline>'')] =
     Inr \<lparr>index = [''A0001'', ''A0002''], columns = [''RQ1'', ''RQ2''], vals = [[1, 0], [1, 1]]\<rparr> \<and>
   Suc 0 < length [''A0001'', ''A0002''] \<and>
   py_int (last4 ''A0001'') = Inr 1 \<and> py_int (last4 ''A0002'') = Inr 2 \<and>
   (frequency [(''rq1.txt'', ''A0001\<newline>A0002\<newline>''), (''rq2.txt'', ''A0002\<newline>'')] ''A0001'' <
    frequency [(''rq1.txt'', ''A0001\<newline>A0002\<newline>''), (''rq2.txt'', ''A0002\<newline>'')] ''A0002'' \<or>
    frequency [(''rq1.txt'', ''A0001\<newline>A0002\<newline>''), (''rq2.txt'', ''A0002\<newline>'')] ''A0001'' =
    frequency [(''rq1.txt'', ''A0001\<newline>A0002\<newline>''), (''rq2.txt'', ''A0002\<newline>'')] ''A0002'')"
proof -
  have run: "main (\<lambda>_ _. 0) [(''rq1.txt'', ''A0001\<newline>A0002\<newline>''), (''rq2.txt'', ''A0002\<newline>'')] =
     Inr \<lparr>index = [''A0001'', ''A0002''], columns = [''RQ1'', ''RQ2''], vals = [[1, 0], [1, 1]]\<rparr>"
    by code_simp
  have m: "py_int (last4 ''A0001'') = Inr 1" by code_simp
  have n: "py_int (last4 ''A0002'') = Inr 2" by code_simp
  from rows_ascending [OF run, of 0] run m n show ?thesis by simp
qed

text \<open>
  Claim C9. When discovery finds no file, the script raises nothing and builds the frame with
  no row and no column.
\<close>

theorem no_files_empty_matrix:
  "main rank [] = Inr \<lparr>index = [], columns = [], vals = []\<rparr>"
  by (simp add: main_def read_files_def row_order_def column_order_def sorted_py_def fill_def
      DataFrame0_def)

text \<open>
  Claim C5. Parsing a file yields the set of its lines, stripped, the blank ones left out, each
  identifier once however often its line occurs. Reading one file adds one to the tally of each
  identifier of the file and nothing to the others, so that after the loop the tally of an
  identifier is the number of files that hold it. A line of white space only yields no
  identifier, and every row of the matrix is the stripped text of a line that is not blank.
\<close>

theorem parsing_and_tally:
  "set (referencias_of rank content) = identifiers content \<and>
   distinct (referencias_of rank content) \<and>
   get0 (snd (read_file rank st (arquivo, content))) r =
     get0 (snd st) r + (if r \<in> identifiers content then 1 else 0) \<and>
   get0 (snd (read_files rank arquivos)) r = frequency arquivos r \<and>
   ((\<forall>c\<in>set linha. isspace c) \<longrightarrow> strip linha \<notin> identifiers content) \<and>
   (main rank arquivos = Inr df \<longrightarrow>
      (\<forall>x\<in>set (index df). x \<noteq> [] \<and> (\<exists>c\<in>set x. \<not> isspace c) \<and>
         (\<exists>f\<in>set arquivos. \<exists>l\<in>set (file_lines (snd f)).
            x = strip l \<and> (\<exists>c\<in>set l. \<not> isspace c))))"
proof (intro conjI impI ballI)
  show "set (referencias_of rank content) = identifiers content" by (rule set_referencias_of)
  show "distinct (referencias_of rank content)" by (rule distinct_referencias_of)
  show "get0 (snd (read_file rank st (arquivo, content))) r =
     get0 (snd st) r + (if r \<in> identifiers content then 1 else 0)"
    by (simp add: read_file_snd get0_foldl_count distinct_referencias_of set_referencias_of)
  show "get0 (snd (read_files rank arquivos)) r = frequency arquivos r" by (rule read_files_get0)
next
  assume "\<forall>c\<in>set linha. isspace c"
  then have "strip linha = []" by (simp add: strip_eq_Nil)
  then show "strip linha \<notin> identifiers content" by (simp add: identifiers_def)
next
  fix x assume run: "main rank arquivos = Inr df" and x: "x \<in> set (index df)"
  from row_order_set [OF main_Inr(1) [OF run]] x
  obtain f where f: "f \<in> set arquivos" "x \<in> identifiers (snd f)"
    unfolding read_files_amostra_keys by blast
  from f(2) obtain l where l: "l \<in> set (file_lines (snd f))" "x = strip l" "x \<noteq> []"
    by (auto simp: identifiers_def)
  from l(2,3) strip_not_blank [of l] have c: "\<exists>c\<in>set x. \<not> isspace c" by simp
  from l(2,3) strip_eq_Nil [of l] have "\<exists>c\<in>set l. \<not> isspace c" by auto
  with f(1) l(1,2) have "\<exists>f\<in>set arquivos. \<exists>l\<in>set (file_lines (snd f)).
            x = strip l \<and> (\<exists>c\<in>set l. \<not> isspace c)" by blast
  with l(3) c show "x \<noteq> []" and "\<exists>c\<in>set x. \<not> isspace c"
    and "\<exists>f\<in>set arquivos. \<exists>l\<in>set (file_lines (snd f)).
            x = strip l \<and> (\<exists>c\<in>set l. \<not> isspace c)" by simp_all
qed

theorem parsing_and_tally_witness:
  "main (\<lambda>_ _. 0) [(''rq1.txt'', ''A0001\<newline> \<newline>  A0001 \<newline>A0002\<newline>''), (''rq2.txt'', ''A0002\<newline>\<newline>'')] =
     Inr \<lparr>index = [''A0001'', ''A0002''], columns = [''RQ1'', ''RQ2''], vals = [[1, 0], [1, 1]]\<rparr> \<and>
   set (referencias_of (\<lambda>_ _. 0) ''A0001\<newline> \<newline>  A0001 \<newline>A0002\<newline>'') =
     identifiers ''A0001\<newline> \<newline>  A0001 \<newline>A0002\<newline>'' \<and>
   identifiers ''A0001\<newline> \<newline>  A0001 \<newline>A0002\<newline>'' = {''A0001'', ''A0002''} \<and>
   get0 (snd (read_file (\<lambda>_ _. 0) ([], []) (''rq1.txt'', ''A0001\<newline> \<newline>  A0001 \<newline>A0002\<newline>''))) ''A0001'' = 1 \<and>
   isspace CHR '' '' \<and> strip '' \<newline>'' \<notin> identifiers ''A0001\<newline> \<newline>  A0001 \<newline>A0002\<newline>'' \<and>
   ''A0001'' \<in> set [''A0001'', ''A0002''] \<and> ''A0001'' \<noteq> []"
proof -
  have run: "main (\<lambda>_ _. 0) [(''rq1.txt'', ''A0001\<newline> \<newline>  A0001 \<newline>A0002\<newline>''), (''rq2.txt'', ''A0002\<newline>\<newline>'')] =
     Inr \<lparr>index = [''A0001'', ''A0002''], columns = [''RQ1'', ''RQ2''], vals = [[1, 0], [1, 1]]\<rparr>"
    by code_simp
  have ids: "identifiers ''A0001\<newline> \<newline>  A0001 \<newline>A0002\<newline>'' = {''A0001'', ''A0002''}"
    by code_simp
  have blank: "\<forall>c\<in>set '' \<newline>''. isspace c" by code_simp
  have sp: "isspace CHR '' ''" by code_simp
  have g0: "get0 (snd ([], [])) ''A0001'' = 0" by (simp add: get0_def)
  note inst = parsing_and_tally [of "\<lambda>_ _. 0" "''A0001\<newline> \<newline>  A0001 \<newline>A0002\<newline>''" "([], [])"
      "''rq1.txt''" "''A0001''"
      "[(''rq1.txt'', ''A0001\<newline> \<newline>  A0001 \<newline>A0002\<newline>''), (''rq2.txt'', ''A0002\<newline>\<newline>'')]"
      "'' \<newline>''"
      "\<lparr>index = [''A0001'', ''A0002''], columns = [''RQ1'', ''RQ2''], vals = [[1, 0], [1, 1]]\<rparr>"]
  from inst run ids blank sp g0 show ?thesis by simp
qed

text \<open>
  Claim C7. When the last four characters of some identifier of some file are no integer
  literal, line 29 raises \<open>ValueError\<close> and so does the run. When they are an integer literal
  for every identifier of every file, line 29 raises nothing.
\<close>

theorem unparsable_suffix_is_fatal:
  "((\<exists>f\<in>set arquivos. \<exists>r\<in>identifiers (snd f). \<exists>e. py_int (last4 r) = Inl e) \<longrightarrow>
      row_order (snd (read_files rank arquivos)) = Inl ValueError \<and>
      main rank arquivos = Inl ValueError) \<and>
   ((\<forall>f\<in>set arquivos. \<forall>r\<in>identifiers (snd f). \<exists>n. py_int (last4 r) = Inr n) \<longrightarrow>
      (\<exists>rows. row_order (snd (read_files rank arquivos)) = Inr rows))"
proof (intro conjI impI)
  assume "\<exists>f\<in>set arquivos. \<exists>r\<in>identifiers (snd f). \<exists>e. py_int (last4 r) = Inl e"
  then obtain f r e where *: "f \<in> set arquivos" "r \<in> identifiers (snd f)"
    "py_int (last4 r) = Inl e" by blast
  show "row_order (snd (read_files rank arquivos)) = Inl ValueError"
    by (rule main_fails_in_row_order(1) [OF *])
  show "main rank arquivos = Inl ValueError"
    by (rule main_fails_in_row_order(2) [OF *])
next
  assume "\<forall>f\<in>set arquivos. \<forall>r\<in>identifiers (snd f). \<exists>n. py_int (last4 r) = Inr n"
  then have "\<forall>r\<in>fst ` set (snd (read_files rank arquivos)). \<exists>n. py_int (last4 r) = Inr n"
    unfolding read_files_amostra_keys by blast
  then show "\<exists>rows. row_order (snd (read_files rank arquivos)) = Inr rows"
    by (rule row_order_ok)
qed

theorem unparsable_suffix_is_fatal_witness:
  "''A1'' \<in> identifiers ''A1\<newline>A2\<newline>'' \<and> py_int (last4 ''A1'') = Inl ValueError \<and>
   main (\<lambda>_ _. 0) [(''rq1.txt'', ''A1\<newline>A2\<newline>''), (''rq2.txt'', ''A2\<newline>'')] = Inl ValueError \<and>
   identifiers ''A0001\<newline>A0002\<newline>'' = {''A0001'', ''A0002''} \<and>
   identifiers ''A0002\<newline>'' = {''A0002''} \<and>
   py_int (last4 ''A0001'') = Inr 1 \<and> py_int (last4 ''A0002'') = Inr 2 \<and>
   (\<exists>rows. row_order (snd (read_files (\<lambda>_ _. 0)
      [(''rq1.txt'', ''A0001\<newline>A0002\<newline>''), (''rq2.txt'', ''A0002\<newline>'')])) = Inr rows)"
proof -
  have i1: "''A1'' \<in> identifiers ''A1\<newline>A2\<newline>''" by code_simp
  have p1: "py_int (last4 ''A1'') = Inl ValueError" by code_simp
  have i2: "identifiers ''A0001\<newline>A0002\<newline>'' = {''A0001'', ''A0002''}" by code_simp
  have i3: "identifiers ''A0002\<newline>'' = {''A0002''}" by code_simp
  have p2: "py_int (last4 ''A0001'') = Inr 1" by code_simp
  have p3: "py_int (last4 ''A0002'') = Inr 2" by code_simp
  have bad: "\<exists>f\<in>set [(''rq1.txt'', ''A1\<newline>A2\<newline>''), (''rq2.txt'', ''A2\<newline>'')].
               \<exists>r\<in>identifiers (snd f). \<exists>e. py_int (last4 r) = Inl e"
    using i1 p1 by auto
  have good: "\<forall>f\<in>set [(''rq1.txt'', ''A0001\<newline>A0002\<newline>''), (''rq2.txt'', ''A0002\<newline>'')].
               \<forall>r\<in>identifiers (snd f). \<exists>n. py_int (last4 r) = Inr n"
    using i2 i3 p2 p3 by simp
  note inst1 = unparsable_suffix_is_fatal [THEN conjunct1, THEN mp, OF bad, of "\<lambda>_ _. 0"]
  note inst2 = unparsable_suffix_is_fatal [THEN conjunct2, THEN mp, OF good, of "\<lambda>_ _. 0"]
  from inst1 inst2 i1 p1 i2 i3 p2 p3 show ?thesis by (intro conjI) (erule conjE | assumption)+
qed



text \<open>
  Claim C4, amended. When the script builds its matrix, the columns are the keys of the files
  read, each once, every key holds an integer literal between its first and its second
  \<^verbatim>\<open>RQ\<close>, and the columns are sorted by ascending value of that integer. The columns
  whose keys have one and the same integer value come in the order in which these keys were
  first discovered. On the same files in any other order of discovery the script builds a
  matrix with the same set of columns, and with the same list of columns when no two keys have
  the same integer value.
\<close>

theorem columns_by_number:
  assumes "main rank arquivos = Inr df" and "mset arquivos' = mset arquivos"
  shows "set (columns df) = file_key ` fst ` set arquivos \<and> distinct (columns df) \<and>
         (\<forall>c\<in>set (columns df). \<exists>n. column_key c = Inr n) \<and>
         sorted (map (\<lambda>c. projr (column_key c)) (columns df)) \<and>
         (\<forall>n. filter (\<lambda>c. column_key c = Inr n) (columns df) =
              filter (\<lambda>c. column_key c = Inr n) (first_seen (map (\<lambda>f. file_key (fst f)) arquivos))) \<and>
         (\<exists>df'. main rank' arquivos' = Inr df' \<and> set (columns df') = set (columns df) \<and>
                (inj_on column_key (set (columns df)) \<longrightarrow> columns df' = columns df))"
proof -
  let ?k = "\<lambda>c. projr (column_key c)"
  note c = main_columns [OF assms(1)]
  from assms(2) have same: "set arquivos' = set arquivos" by (rule mset_eq_setD)
  have "\<exists>df. main rank arquivos = Inr df" using assms(1) by blast
  then have "\<exists>df'. main rank' arquivos' = Inr df'"
    unfolding main_succeeds_iff same .
  then obtain df' where df': "main rank' arquivos' = Inr df'" ..
  note c' = main_columns [OF df']
  have sets: "set (columns df') = set (columns df)" using c(2) c'(2) same by simp
  have "columns df' = columns df" if inj: "inj_on column_key (set (columns df))"
  proof -
    have "inj_on ?k (set (columns df))"
    proof (rule inj_onI)
      fix x y assume x: "x \<in> set (columns df)" and y: "y \<in> set (columns df)"
        and eq: "?k x = ?k y"
      from c(4) x y obtain m n where "column_key x = Inr m" "column_key y = Inr n" by blast
      with eq have "column_key x = column_key y" by simp
      from inj_onD [OF inj this x y] show "x = y" .
    qed
    then have inj_k: "inj_on ?k (set (map fst (fst (read_files rank' arquivos'))))"
      using c(2) same by (simp add: read_files_arquivo_keys)
    have "set (map fst (fst (read_files rank' arquivos'))) =
          set (map fst (fst (read_files rank arquivos)))"
      using same by (simp add: read_files_arquivo_keys)
    from sort_key_unique [OF read_files_distinct(1) read_files_distinct(1) this inj_k]
    show ?thesis using c(1) c'(1) by simp
  qed
  with df' sets have "\<exists>df'. main rank' arquivos' = Inr df' \<and> set (columns df') = set (columns df) \<and>
                (inj_on column_key (set (columns df)) \<longrightarrow> columns df' = columns df)" by blast
  moreover have "sorted (map ?k (columns df))" unfolding c(1) by (rule sorted_sort_key)
  moreover note main_columns_ties [OF assms(1)]
  ultimately show ?thesis using c(2,3,4) by blast
qed

theorem columns_by_number_witness:
  "main (\<lambda>_ _. 0) [(''rq2.txt'', ''A0002\<newline>''), (''rq1.txt'', ''A0001\<newline>A0002\<newline>'')] =
     Inr \<lparr>index = [''A0001'', ''A0002''], columns = [''RQ1'', ''RQ2''], vals = [[1, 0], [1, 1]]\<rparr> \<and>
   mset [(''rq1.txt'', ''A0001\<newline>A0002\<newline>''), (''rq2.txt'', ''A0002\<newline>'')] =
   mset [(''rq2.txt'', ''A0002\<newline>''), (''rq1.txt'', ''A0001\<newline>A0002\<newline>'')] \<and>
   ''RQ1'' \<in> set [''RQ1'', ''RQ2''] \<and>
   column_key ''RQ1'' = Inr 1 \<and> column_key ''RQ2'' = Inr 2 \<and>
   (\<exists>df'. main (\<lambda>_ _. 0) [(''rq1.txt'', ''A0001\<newline>A0002\<newline>''), (''rq2.txt'', ''A0002\<newline>'')] = Inr df' \<and>
          columns df' = [''RQ1'', ''RQ2''])"
proof -
  have run: "main (\<lambda>_ _. 0) [(''rq2.txt'', ''A0002\<newline>''), (''rq1.txt'', ''A0001\<newline>A0002\<newline>'')] =
     Inr \<lparr>index = [''A0001'', ''A0002''], columns = [''RQ1'', ''RQ2''], vals = [[1, 0], [1, 1]]\<rparr>"
    by code_simp
  have perm: "mset [(''rq1.txt'', ''A0001\<newline>A0002\<newline>''), (''rq2.txt'', ''A0002\<newline>'')] =
   mset [(''rq2.txt'', ''A0002\<newline>''), (''rq1.txt'', ''A0001\<newline>A0002\<newline>'')]"
    by (simp add: add_mset_commute)
  have k1: "column_key ''RQ1'' = Inr 1" by code_simp
  have k2: "column_key ''RQ2'' = Inr 2" by code_simp
  have mem: "''RQ1'' \<in> set [''RQ1'', ''RQ2'']" by simp
  have inj: "inj_on column_key (set (columns
      \<lparr>index = [''A0001'', ''A0002''], columns = [''RQ1'', ''RQ2''], vals = [[1, 0], [1, 1]]\<rparr>))"
    using k1 k2 by (simp add: inj_on_def)
  note inst = columns_by_number [OF run perm, of "\<lambda>_ _. 0"]
  from inst obtain df' where
    df': "main (\<lambda>_ _. 0) [(''rq1.txt'', ''A0001\<newline>A0002\<newline>''), (''rq2.txt'', ''A0002\<newline>'')] = Inr df'"
    and imp: "inj_on column_key (set (columns
      \<lparr>index = [''A0001'', ''A0002''], columns = [''RQ1'', ''RQ2''], vals = [[1, 0], [1, 1]]\<rparr>)) \<longrightarrow>
      columns df' = columns
      \<lparr>index = [''A0001'', ''A0002''], columns = [''RQ1'', ''RQ2''], vals = [[1, 0], [1, 1]]\<rparr>"
    by blast
  from imp inj have "columns df' = columns
      \<lparr>index = [''A0001'', ''A0002''], columns = [''RQ1'', ''RQ2''], vals = [[1, 0], [1, 1]]\<rparr>"
    by (rule mp)
  then have "columns df' = [''RQ1'', ''RQ2'']" by simp
  with df' have "\<exists>df'. main (\<lambda>_ _. 0)
      [(''rq1.txt'', ''A0001\<newline>A0002\<newline>''), (''rq2.txt'', ''A0002\<newline>'')] = Inr df' \<and>
      columns df' = [''RQ1'', ''RQ2'']" by blast
  with run perm mem k1 k2 show ?thesis by blast
qed

text \<open>
  Claim C4 as stated fails: the keys \<^verbatim>\<open>RQ1\<close> and \<^verbatim>\<open>RQ01\<close> have the same integer value, the
  sort is stable, and the two columns come in the order in which the files were discovered.
\<close>

theorem columns_depend_on_enumeration:
  "main rank0 [(''rq1.txt'', ''A0001\<newline>''), (''rq01.txt'', ''A0001\<newline>'')] =
     Inr \<lparr>index = [''A0001''], columns = [''RQ1'', ''RQ01''], vals = [[1, 1]]\<rparr> \<and>
   main rank0 [(''rq01.txt'', ''A0001\<newline>''), (''rq1.txt'', ''A0001\<newline>'')] =
     Inr \<lparr>index = [''A0001''], columns = [''RQ01'', ''RQ1''], vals = [[1, 1]]\<rparr>"
  by code_simp

text \<open>
  Claim C6, amended. On \<^verbatim>\<open>rq1.txt\<close> with the lines \<^verbatim>\<open>A1\<close>, \<^verbatim>\<open>A2\<close> and \<^verbatim>\<open>rq2.txt\<close> with the line
  \<^verbatim>\<open>A2\<close> the run fails, in either order of discovery and for every iteration order of the
  sets: line 29 raises \<open>ValueError\<close>, since \<^verbatim>\<open>A1\<close> is no integer literal. With the identifiers
  \<^verbatim>\<open>A0001\<close> and \<^verbatim>\<open>A0002\<close> in their place the script builds the matrix with the rows
  \<^verbatim>\<open>A0001\<close>, \<^verbatim>\<open>A0002\<close> in this order, the columns \<^verbatim>\<open>RQ1\<close>, \<^verbatim>\<open>RQ2\<close> and the cells (1, 0) and
  (1, 1); the second identifier is in two files, the first in one.
\<close>

theorem spec_example_four_digits:
  "main rank [(''rq1.txt'', ''A1\<newline>A2\<newline>''), (''rq2.txt'', ''A2\<newline>'')] = Inl ValueError \<and>
   main rank [(''rq2.txt'', ''A2\<newline>''), (''rq1.txt'', ''A1\<newline>A2\<newline>'')] = Inl ValueError \<and>
   row_order (snd (read_files rank [(''rq1.txt'', ''A1\<newline>A2\<newline>''), (''rq2.txt'', ''A2\<newline>'')])) =
     Inl ValueError \<and>
   main rank [(''rq1.txt'', ''A0001\<newline>A0002\<newline>''), (''rq2.txt'', ''A0002\<newline>'')] =
     Inr \<lparr>index = [''A0001'', ''A0002''], columns = [''RQ1'', ''RQ2''], vals = [[1, 0], [1, 1]]\<rparr> \<and>
   main rank [(''rq2.txt'', ''A0002\<newline>''), (''rq1.txt'', ''A0001\<newline>A0002\<newline>'')] =
     Inr \<lparr>index = [''A0001'', ''A0002''], columns = [''RQ1'', ''RQ2''], vals = [[1, 0], [1, 1]]\<rparr> \<and>
   frequency [(''rq1.txt'', ''A0001\<newline>A0002\<newline>''), (''rq2.txt'', ''A0002\<newline>'')] ''A0001'' = 1 \<and>
   frequency [(''rq1.txt'', ''A0001\<newline>A0002\<newline>''), (''rq2.txt'', ''A0002\<newline>'')] ''A0002'' = 2"
proof -
  let ?bad1 = "(''rq1.txt'', ''A1\<newline>A2\<newline>'')"
  have id: "''A1'' \<in> identifiers (snd ?bad1)" by code_simp
  have no: "py_int (last4 ''A1'') = Inl ValueError" by code_simp
  have e1: "main rank [?bad1, (''rq2.txt'', ''A2\<newline>'')] = Inl ValueError"
    by (rule main_fails_in_row_order(2) [OF _ id no]) simp
  have e2: "main rank [(''rq2.txt'', ''A2\<newline>''), ?bad1] = Inl ValueError"
    by (rule main_fails_in_row_order(2) [OF _ id no]) simp
  have e3: "row_order (snd (read_files rank [?bad1, (''rq2.txt'', ''A2\<newline>'')])) = Inl ValueError"
    by (rule main_fails_in_row_order(1) [OF _ id no]) simp
  let ?r1 = "\<lambda>(xs :: string list) (s :: string). if s = ''A0001'' then (1 :: nat) else 0"
  let ?fs = "[(''rq1.txt'', ''A0001\<newline>A0002\<newline>''), (''rq2.txt'', ''A0002\<newline>'')]"
  let ?gs = "[(''rq2.txt'', ''A0002\<newline>''), (''rq1.txt'', ''A0001\<newline>A0002\<newline>'')]"
  let ?df = "\<lparr>index = [''A0001'', ''A0002''], columns = [''RQ1'', ''RQ2''], vals = [[1, 0], [1, 1]]\<rparr>"
  have l1: "map strip (filter (\<lambda>linha. strip linha \<noteq> []) (file_lines ''A0001\<newline>A0002\<newline>'')) =
            [''A0001'', ''A0002'']" by code_simp
  have l2: "map strip (filter (\<lambda>linha. strip linha \<noteq> []) (file_lines ''A0002\<newline>'')) = [''A0002'']"
    by code_simp
  have ne: "''A0001'' \<noteq> ''A0002''" by simp
  have s2: "referencias_of r ''A0002\<newline>'' = [''A0002'']" for r
    unfolding referencias_of_def l2 by (rule py_set_one)
  have s1: "referencias_of r ''A0001\<newline>A0002\<newline>'' =
      (if r [''A0001'', ''A0002''] ''A0001'' \<le> r [''A0001'', ''A0002''] ''A0002''
       then [''A0001'', ''A0002''] else [''A0002'', ''A0001''])" for r
    unfolding referencias_of_def l1 by (rule py_set_two [OF ne])
  have a0: "main (\<lambda>_ _. 0) ?fs = Inr ?df" by code_simp
  have a1: "main ?r1 ?fs = Inr ?df" by code_simp
  have b0: "main (\<lambda>_ _. 0) ?gs = Inr ?df" by code_simp
  have b1: "main ?r1 ?gs = Inr ?df" by code_simp
  have ok: "main rank ?fs = Inr ?df \<and> main rank ?gs = Inr ?df"
  proof (cases "rank [''A0001'', ''A0002''] ''A0001'' \<le> rank [''A0001'', ''A0002''] ''A0002''")
    case True
    then have "\<forall>f\<in>set ?fs. referencias_of rank (snd f) = referencias_of (\<lambda>_ _. 0) (snd f)"
      and "\<forall>f\<in>set ?gs. referencias_of rank (snd f) = referencias_of (\<lambda>_ _. 0) (snd f)"
      by (simp_all add: s1 s2)
    then have "main rank ?fs = main (\<lambda>_ _. 0) ?fs" "main rank ?gs = main (\<lambda>_ _. 0) ?gs"
      by (simp_all only: main_cong_rank)
    with a0 b0 show ?thesis by simp
  next
    case False
    then have "\<forall>f\<in>set ?fs. referencias_of rank (snd f) = referencias_of ?r1 (snd f)"
      and "\<forall>f\<in>set ?gs. referencias_of rank (snd f) = referencias_of ?r1 (snd f)"
      by (simp_all add: s1 s2)
    then have "main rank ?fs = main ?r1 ?fs" "main rank ?gs = main ?r1 ?gs"
      by (simp_all only: main_cong_rank)
    with a1 b1 show ?thesis by simp
  qed
  have f1: "frequency ?fs ''A0001'' = 1" by code_simp
  have f2: "frequency ?fs ''A0002'' = 2" by code_simp
  from e1 e2 e3 ok f1 f2 show ?thesis by blast
qed

text \<open>
  Claim C6 as stated fails: on the files of the example the script raises and builds no matrix.
\<close>

theorem spec_example_raises:
  "main rank0 [(''rq1.txt'', ''A1\<newline>A2\<newline>''), (''rq2.txt'', ''A2\<newline>'')] = Inl ValueError"
  by code_simp

text \<open>
  Claim C8, amended. The key of a file is the text of its name before the first dot, in upper
  case. For a name whose only dot is that of \<^verbatim>\<open>.txt\<close> this is the name in upper case with
  the extension stripped, and two such names have the same key exactly when the texts before
  \<^verbatim>\<open>.txt\<close> are equal in upper case.
\<close>

theorem file_key_single_dot:
  assumes "a = s @ ''.txt''" and "CHR ''.'' \<notin> set s"
    and "b = t @ ''.txt''" and "CHR ''.'' \<notin> set t"
  shows "file_key a = upper (strip_ext a) \<and> file_key a = upper s \<and>
         (file_key a = file_key b \<longleftrightarrow> upper s = upper t)"
proof -
  have key: "file_key (u @ ''.txt'') = upper u" if "CHR ''.'' \<notin> set u" for u
    using that by (simp add: file_key_def split_dot0_def takeWhile_append)
  have ext: "strip_ext (u @ ''.txt'') = u" if "CHR ''.'' \<notin> set u" for u
    by (simp add: strip_ext_def)
  show ?thesis using key [OF assms(2)] key [OF assms(4)] ext [OF assms(2)] assms(1,3) by simp
qed

theorem file_key_single_dot_witness:
  "''rq1.txt'' = ''rq1'' @ ''.txt'' \<and> CHR ''.'' \<notin> set ''rq1'' \<and>
   ''rQ1.txt'' = ''rQ1'' @ ''.txt'' \<and> CHR ''.'' \<notin> set ''rQ1'' \<and>
   file_key ''rq1.txt'' = upper (strip_ext ''rq1.txt'') \<and> file_key ''rq1.txt'' = ''RQ1'' \<and>
   file_key ''rq1.txt'' = file_key ''rQ1.txt''"
proof -
  have a: "''rq1.txt'' = ''rq1'' @ ''.txt''" by simp
  have s: "CHR ''.'' \<notin> set ''rq1''" by simp
  have b: "''rQ1.txt'' = ''rQ1'' @ ''.txt''" by simp
  have t: "CHR ''.'' \<notin> set ''rQ1''" by simp
  have u: "upper ''rq1'' = ''RQ1''" by code_simp
  have v: "upper ''rQ1'' = ''RQ1''" by code_simp
  note inst = file_key_single_dot [OF a s b t]
  from inst have r1: "file_key ''rq1.txt'' = upper (strip_ext ''rq1.txt'')" by (rule conjunct1)
  from inst have "file_key ''rq1.txt'' = upper ''rq1''" by blast
  with u have r2: "file_key ''rq1.txt'' = ''RQ1''" by (simp only:)
  from inst have "file_key ''rq1.txt'' = file_key ''rQ1.txt'' \<longleftrightarrow> upper ''rq1'' = upper ''rQ1''"
    by blast
  with u v have r3: "file_key ''rq1.txt'' = file_key ''rQ1.txt''" by (simp only:)
  from a s b t r1 r2 r3 show ?thesis by blast
qed

text \<open>
  Claim C8 as stated fails: the key of \<^verbatim>\<open>rq1.v2.txt\<close> stops at the first dot, and the names
  \<^verbatim>\<open>rqa.txt\<close> and \<^verbatim>\<open>rqA.txt\<close> differ before the extension and have the same key.
\<close>

theorem file_key_counter:
  "file_key ''rq1.v2.txt'' \<noteq> upper (strip_ext ''rq1.v2.txt'') \<and>
   ''rqa.txt'' \<noteq> ''rqA.txt'' \<and> file_key ''rqa.txt'' = file_key ''rqA.txt''"
  by code_simp

end
